theory Spec2Isabelle
  imports Complex_Main "HOL-Library.Sublist"
begin

text \<open>
  The client scripts of the medical dashboard: the main script (sidebar, active link,
  alerts, form validation, notifications) and \<open>charts.js\<close> (demo data, chart
  configurations). The page, the timers and the listeners are explicit state; an
  exception is a value; the loops are recursive functions.
\<close>

section \<open>JavaScript strings and numbers\<close>

text \<open>
  Strings are character lists. Numbers that the scripts use as counters, widths and
  durations are mathematical integers: every integer the scripts can reach (an array
  cannot hold more than \<open>2^32 - 1\<close> entries) is exact in a double. The values of the random
  walk are doubles, each given by the real number it stands for, and their arithmetic is
  that of IEEE 754 binary64, defined below.
\<close>

text \<open>\<^verbatim>\<open>s.includes(sub)\<close>: does \<open>sub\<close> occur in \<open>s\<close> at some position.\<close>

fun str_includes :: "string \<Rightarrow> string \<Rightarrow> bool" where
  "str_includes [] sub = (sub = [])"
| "str_includes (c # cs) sub = (prefix sub (c # cs) \<or> str_includes cs sub)"

text \<open>
  \<^verbatim>\<open>s.replace(pat, rep)\<close> with a string pattern and a replacement that holds no
  \<^verbatim>\<open>$\<close>: the first occurrence of \<open>pat\<close> is replaced, the rest of \<open>s\<close> is kept.
\<close>

fun str_replace :: "string \<Rightarrow> string \<Rightarrow> string \<Rightarrow> string" where
  "str_replace [] pat rep = (if pat = [] then rep else [])"
| "str_replace (c # cs) pat rep =
     (if prefix pat (c # cs) then rep @ drop (length pat) (c # cs)
      else c # str_replace cs pat rep)"

text \<open>The decimal digits of a number, as a template literal prints an integer.\<close>

definition digit_char :: "nat \<Rightarrow> char" where
  "digit_char d = ''0123456789'' ! d"

function nat_digits :: "nat \<Rightarrow> string" where
  "nat_digits n = (if n < 10 then [digit_char n] else nat_digits (n div 10) @ [digit_char (n mod 10)])"
  by pat_completeness auto
termination
  by (relation "measure id") auto

definition Number_toString :: "int \<Rightarrow> string" where
  "Number_toString n = (if n < 0 then CHR ''-'' # nat_digits (nat (- n)) else nat_digits (nat n))"

text \<open>\<^verbatim>\<open>Math.round\<close>: the nearest integer, a tie going up.\<close>

definition Math_round :: "real \<Rightarrow> int" where
  "Math_round x = \<lfloor>x + 1 / 2\<rfloor>"

subsection \<open>Double arithmetic\<close>

text \<open>
  An operation on doubles gives the double nearest to the exact result, a tie going to
  the even significand. \<open>round_even\<close> rounds to an integer in that way. \<open>exponent a\<close> is the
  binary exponent of \<open>a > 0\<close>, found by counting up from 0 for \<open>a \<ge> 1\<close> and down for
  \<open>a < 1\<close>, and kept within the range of binary64 (below \<open>2^-1022\<close> the numbers are
  subnormal and share the exponent -1022). \<open>round_pos a\<close> keeps 53 significant bits of
  \<open>a\<close>. The scripts' values stay far below \<open>2^1024\<close>, so no operation overflows to
  \<open>Infinity\<close>, and none yields \<open>NaN\<close>.
\<close>

definition round_even :: "real \<Rightarrow> int" where
  "round_even q =
     (let f = \<lfloor>q\<rfloor>; r = q - of_int f
      in if r < 1 / 2 then f else if 1 / 2 < r then f + 1 else if even f then f else f + 1)"

function exp_up :: "real \<Rightarrow> int \<Rightarrow> int" where
  "exp_up a e = (if e < 1023 \<and> 2 powi (e + 1) \<le> a then exp_up a (e + 1) else e)"
  by pat_completeness auto
termination
  by (relation "measure (\<lambda>(a, e). nat (1023 - e))") auto

function exp_down :: "real \<Rightarrow> int \<Rightarrow> int" where
  "exp_down a e = (if - 1022 < e \<and> a < 2 powi e then exp_down a (e - 1) else e)"
  by pat_completeness auto
termination
  by (relation "measure (\<lambda>(a, e). nat (e + 1022))") auto

definition exponent :: "real \<Rightarrow> int" where
  "exponent a = (if 1 \<le> a then exp_up a 0 else exp_down a 0)"

definition round_pos :: "real \<Rightarrow> real" where
  "round_pos a = (let u = 2 powi (exponent a - 52) in of_int (round_even (a / u)) * u)"

definition binary64 :: "real \<Rightarrow> real" where
  "binary64 x = (if x = 0 then 0 else sgn x * round_pos \<bar>x\<bar>)"

text \<open>\<open>x + y\<close>, \<open>x - y\<close> and \<open>x * y\<close> on doubles.\<close>

definition fl_add :: "real \<Rightarrow> real \<Rightarrow> real" where
  "fl_add x y = binary64 (x + y)"

definition fl_sub :: "real \<Rightarrow> real \<Rightarrow> real" where
  "fl_sub x y = binary64 (x - y)"

definition fl_mul :: "real \<Rightarrow> real \<Rightarrow> real" where
  "fl_mul x y = binary64 (x * y)"

section \<open>charts.js: the demo data\<close>

text \<open>
  \<^verbatim>\<open>for (let i = 1; i <= weeks; i++) { labels.push(`Week ${i * 4}`); }\<close>
\<close>

function labels_loop :: "int \<Rightarrow> int \<Rightarrow> string list \<Rightarrow> string list" where
  "labels_loop weeks i labels =
     (if i \<le> weeks then labels_loop weeks (i + 1) (labels @ [''Week '' @ Number_toString (i * 4)])
      else labels)"
  by pat_completeness auto
termination
  by (relation "measure (\<lambda>(weeks, i, labels). nat (weeks + 1 - i))") auto

text \<open>
  \<open>Math.random()\<close> is a source of draws: the \<open>k\<close>-th call of a run returns the double
  \<open>rnd k\<close>. \<open>generateTrend\<close> takes the number of draws made so far and returns it updated.
  The subtraction, the product and the sum are operations on doubles; \<open>Math.max\<close>,
  \<open>Math.min\<close> and \<open>Math.round\<close> are exact.
  \<^verbatim>\<open>
  const generateTrend = (start, min, max, volatility) => {
      const data = [];
      let current = start;
      for (let i = 0; i < weeks; i++) {
          const change = (Math.random() - 0.5) * volatility;
          current = Math.max(min, Math.min(max, current + change));
          data.push(Math.round(current));
      }
      return data;
  };\<close>
\<close>

function trend_loop ::
  "int \<Rightarrow> (nat \<Rightarrow> real) \<Rightarrow> real \<Rightarrow> real \<Rightarrow> real \<Rightarrow> int \<Rightarrow> real \<Rightarrow> nat \<Rightarrow> int list \<Rightarrow> int list \<times> nat" where
  "trend_loop weeks rnd lo hi volatility i current drawn data =
     (if i < weeks then
        (let change = fl_mul (fl_sub (rnd drawn) 0.5) volatility;
             current' = max lo (min hi (fl_add current change))
         in trend_loop weeks rnd lo hi volatility (i + 1) current' (Suc drawn)
              (data @ [Math_round current']))
      else (data, drawn))"
  by pat_completeness auto
termination
  by (relation "measure (\<lambda>(weeks, rnd, lo, hi, volatility, i, current, drawn, data). nat (weeks - i))") auto

definition generateTrend ::
  "int \<Rightarrow> (nat \<Rightarrow> real) \<Rightarrow> real \<Rightarrow> real \<Rightarrow> real \<Rightarrow> real \<Rightarrow> nat \<Rightarrow> int list \<times> nat" where
  "generateTrend weeks rnd start lo hi volatility drawn =
     trend_loop weeks rnd lo hi volatility 0 start drawn []"

record demo_data =
  labels :: "string list"
  riskScores :: "int list"
  bloodPressure :: "int list"
  glucoseLevels :: "int list"
  weightGain :: "int list"
  fetalHeartRate :: "int list"

text \<open>
  \<open>generateDemoData(weeks = 7)\<close>: \<open>None\<close> is the omitted argument. The five series are
  generated in the order of the object literal, each continuing the draws of the one
  before.
\<close>

definition generateDemoData :: "int option \<Rightarrow> (nat \<Rightarrow> real) \<Rightarrow> demo_data" where
  "generateDemoData weeks_arg rnd =
     (let weeks = (case weeks_arg of None \<Rightarrow> 7 | Some w \<Rightarrow> w);
          labels = labels_loop weeks 1 [];
          (risk, d1) = generateTrend weeks rnd 25 10 40 8 0;
          (bp, d2) = generateTrend weeks rnd 125 110 140 5 d1;
          (glucose, d3) = generateTrend weeks rnd 95 70 120 10 d2;
          (weight, d4) = generateTrend weeks rnd 2 0 5 1 d3;
          (fetal, d5) = generateTrend weeks rnd 140 120 160 5 d4
      in \<lparr>labels = labels, riskScores = risk, bloodPressure = bp, glucoseLevels = glucose,
          weightGain = weight, fetalHeartRate = fetal\<rparr>)"




section \<open>The page: a document of elements\<close>

text \<open>
  The elements inside the body, in document order: a node is its position in the list,
  and a parent stands before its children. \<open>parentNode = None\<close> is a child of the body.
  An element that was removed from its parent is marked \<open>detached\<close> and keeps its
  position, so that nodes held by closures and timers stay valid. \<open>validity\<close> is what the
  browser's constraint validation answers for an element that has \<open>checkValidity\<close>;
  \<open>innerHTML\<close> is markup that the model does not parse into nodes.
\<close>

datatype js_error = TypeError

record element =
  localName :: string
  attributes :: "(string \<times> string) list"
  classList :: "string list"
  parentNode :: "nat option"
  detached :: bool
  innerHTML :: string
  el_value :: string
  validity :: bool

definition getAttribute :: "element \<Rightarrow> string \<Rightarrow> string option" where
  "getAttribute e name = map_of (attributes e) name"

definition hasAttribute :: "element \<Rightarrow> string \<Rightarrow> bool" where
  "hasAttribute e name = (map_of (attributes e) name \<noteq> None)"

definition classList_contains :: "string \<Rightarrow> element \<Rightarrow> bool" where
  "classList_contains c e = (c \<in> set (classList e))"

definition classList_add :: "string \<Rightarrow> element \<Rightarrow> element" where
  "classList_add c e = (if c \<in> set (classList e) then e else e\<lparr>classList := classList e @ [c]\<rparr>)"

definition classList_remove :: "string \<Rightarrow> element \<Rightarrow> element" where
  "classList_remove c e = e\<lparr>classList := removeAll c (classList e)\<rparr>"

definition classList_toggle :: "string \<Rightarrow> element \<Rightarrow> element" where
  "classList_toggle c e = (if c \<in> set (classList e) then classList_remove c e else classList_add c e)"

text \<open>Assigning \<open>className\<close>: the class list is the text's tokens, the first of equal ones kept.\<close>

definition is_ws :: "char \<Rightarrow> bool" where
  "is_ws c = (c \<in> set [CHR '' '', CHR 0x09, CHR 0x0A, CHR 0x0C, CHR 0x0D])"

fun split_ws :: "string \<Rightarrow> string \<Rightarrow> string list" where
  "split_ws cur [] = (if cur = [] then [] else [cur])"
| "split_ws cur (c # cs) =
     (if is_ws c then (if cur = [] then split_ws [] cs else cur # split_ws [] cs)
      else split_ws (cur @ [c]) cs)"

definition class_tokens :: "string \<Rightarrow> string list" where
  "class_tokens s = rev (remdups (rev (split_ws [] s)))"

definition parentOf :: "element list \<Rightarrow> nat \<Rightarrow> nat option" where
  "parentOf d n = (if n < length d \<and> \<not> detached (d ! n) then parentNode (d ! n) else None)"

function ancestors :: "element list \<Rightarrow> nat \<Rightarrow> nat list" where
  "ancestors d n =
     (case parentOf d n of None \<Rightarrow> []
      | Some p \<Rightarrow> if p < n then p # ancestors d p else [])"
  by pat_completeness auto
termination
  by (relation "measure (\<lambda>(d, n). n)") auto

definition isConnected :: "element list \<Rightarrow> nat \<Rightarrow> bool" where
  "isConnected d n =
     (n < length d \<and> \<not> detached (d ! n) \<and> list_all (\<lambda>a. \<not> detached (d ! a)) (ancestors d n))"

text \<open>A click lands on an element or on the body itself.\<close>

datatype event_target = BodyTarget | ElementTarget nat

text \<open>\<open>node.contains(other)\<close>: \<open>other\<close> is the node or one of its descendants.\<close>

definition node_contains :: "element list \<Rightarrow> nat \<Rightarrow> event_target \<Rightarrow> bool" where
  "node_contains d n t =
     (case t of BodyTarget \<Rightarrow> False
      | ElementTarget m \<Rightarrow> m = n \<or> n \<in> set (ancestors d m))"

text \<open>
  \<open>document.getElementById\<close>: the first connected element, in document order, whose id is
  the given one; no element has the empty id.
\<close>

definition getElementById :: "element list \<Rightarrow> string \<Rightarrow> nat option" where
  "getElementById d i =
     (if i = [] then None
      else find (\<lambda>n. isConnected d n \<and> getAttribute (d ! n) ''id'' = Some i) [0..<length d])"

text \<open>\<open>querySelectorAll\<close>, for the selectors the scripts use: the matches in document order.\<close>

definition select_all :: "element list \<Rightarrow> (nat \<Rightarrow> bool) \<Rightarrow> nat list" where
  "select_all d matches = filter (\<lambda>n. isConnected d n \<and> matches n) [0..<length d]"

definition tooltip_triggers :: "element list \<Rightarrow> nat list" where
  "tooltip_triggers d = select_all d (\<lambda>n. getAttribute (d ! n) ''data-bs-toggle'' = Some ''tooltip'')"

definition transient_alerts :: "element list \<Rightarrow> nat list" where
  "transient_alerts d =
     select_all d (\<lambda>n. classList_contains ''alert'' (d ! n) \<and> \<not> classList_contains ''alert-permanent'' (d ! n))"

definition sidebar_nav_links :: "element list \<Rightarrow> nat list" where
  "sidebar_nav_links d =
     select_all d (\<lambda>n. classList_contains ''nav-link'' (d ! n) \<and>
        list_ex (\<lambda>a. classList_contains ''sidebar'' (d ! a)) (ancestors d n))"

definition all_forms :: "element list \<Rightarrow> nat list" where
  "all_forms d = select_all d (\<lambda>n. localName (d ! n) = ''form'')"

definition form_controls :: "element list \<Rightarrow> nat \<Rightarrow> nat list" where
  "form_controls d form =
     select_all d (\<lambda>n. form \<in> set (ancestors d n) \<and>
        localName (d ! n) \<in> set [''input'', ''select'', ''textarea''])"

section \<open>The browsing context\<close>

text \<open>
  A timer is a callback and the time it is due. The one callback of the scripts closes an
  alert through the UI library (\<open>CloseAlert\<close>); the library's close routine in turn waits
  for the fade transition of the element before it removes it (\<open>DestroyElement\<close>).
  \<open>fadeTransition\<close> is how long that transition takes on the page, as its style sheet
  says. A listener holds the constants its closure captured.
\<close>

datatype callback = CloseAlert nat | DestroyElement nat

datatype listener =
    ToggleSidebar nat nat
  | AutoHideSidebar "nat option" "nat option"

record browser =
  doc :: "element list"
  innerWidth :: int
  pathname :: string
  clock :: int
  timers :: "(int \<times> callback) list"
  listeners :: "listener list"
  tooltips :: "nat list"
  fadeTransition :: nat

definition update_element :: "nat \<Rightarrow> (element \<Rightarrow> element) \<Rightarrow> browser \<Rightarrow> browser" where
  "update_element n f b = b\<lparr>doc := (doc b)[n := f (doc b ! n)]\<rparr>"

text \<open>
  \<open>setTimeout(callback, delay)\<close>: the platform converts the delay to a signed 32-bit
  integer, wrapping around, and takes a negative one as 0.
\<close>

definition ToInt32 :: "int \<Rightarrow> int" where
  "ToInt32 n = (n + 2147483648) mod 4294967296 - 2147483648"

definition setTimeout :: "callback \<Rightarrow> int \<Rightarrow> browser \<Rightarrow> browser" where
  "setTimeout cb delay b = b\<lparr>timers := timers b @ [(clock b + max 0 (ToInt32 delay), cb)]\<rparr>"

definition addEventListener :: "listener \<Rightarrow> browser \<Rightarrow> browser" where
  "addEventListener l b = b\<lparr>listeners := listeners b @ [l]\<rparr>"

text \<open>
  The UI library's \<open>close\<close> on an alert: the class \<open>show\<close> is removed, and the element is
  removed from the document when its transition has ended; that is at once unless the
  element carries the class \<open>fade\<close>.
\<close>

definition detach :: "nat \<Rightarrow> browser \<Rightarrow> browser" where
  "detach n b = update_element n (\<lambda>e. e\<lparr>detached := True\<rparr>) b"

fun run_callback :: "callback \<Rightarrow> browser \<Rightarrow> browser" where
  "run_callback (CloseAlert n) b =
     (let b1 = update_element n (classList_remove ''show'') b
      in if classList_contains ''fade'' (doc b ! n)
         then b1\<lparr>timers := timers b1 @ [(clock b1 + int (fadeTransition b1), DestroyElement n)]\<rparr>
         else detach n b1)"
| "run_callback (DestroyElement n) b = detach n b"

text \<open>
  Time passes by \<open>dt\<close>. While a timer is due by then, the earliest one (of equal ones the
  one set first) is taken off the list and its callback runs at the time it was due; a
  callback may set a timer that is due by then as well. A \<open>CloseAlert\<close> sets at most one
  \<open>DestroyElement\<close>, which sets none, so this ends.
\<close>

definition next_due :: "int \<Rightarrow> (int \<times> callback) list \<Rightarrow> (int \<times> callback) option" where
  "next_due now ts =
     (case filter (\<lambda>t. fst t \<le> now) ts of [] \<Rightarrow> None | d # ds \<Rightarrow> Some (arg_min_list fst (d # ds)))"

fun weight :: "callback \<Rightarrow> nat" where
  "weight (CloseAlert n) = 2"
| "weight (DestroyElement n) = 1"

lemma next_due_Some: "next_due now ts = Some t \<Longrightarrow> t \<in> set ts \<and> fst t \<le> now"
proof -
  assume a: "next_due now ts = Some t"
  then obtain d ds where f: "filter (\<lambda>t. fst t \<le> now) ts = d # ds"
    and t: "t = arg_min_list fst (d # ds)"
    by (auto simp: next_due_def split: list.splits)
  have "t \<in> set (d # ds)" unfolding t by (rule arg_min_list_in) simp
  then have "t \<in> set (filter (\<lambda>t. fst t \<le> now) ts)" by (simp only: f)
  then show ?thesis by simp
qed

lemma weight_run_callback:
  "sum_list (map (\<lambda>t. weight (snd t)) (timers (run_callback cb b))) <
     sum_list (map (\<lambda>t. weight (snd t)) (timers b)) + weight cb"
  by (cases cb) (simp_all add: Let_def update_element_def detach_def)

function run_due :: "int \<Rightarrow> browser \<Rightarrow> browser" where
  "run_due now b =
     (case next_due now (timers b) of
        None \<Rightarrow> b\<lparr>clock := now\<rparr>
      | Some t \<Rightarrow> run_due now (run_callback (snd t) (b\<lparr>clock := fst t, timers := remove1 t (timers b)\<rparr>)))"
  by pat_completeness auto
termination
proof (relation "measure (\<lambda>(now, b). sum_list (map (\<lambda>t. weight (snd t)) (timers b)))", goal_cases)
  case 1
  show ?case by simp
next
  case (2 now b t)
  from next_due_Some [OF 2] have m: "t \<in> set (timers b)" by simp
  have s: "sum_list (map (\<lambda>t. weight (snd t)) (timers b)) =
      weight (snd t) + sum_list (map (\<lambda>t. weight (snd t)) (remove1 t (timers b)))"
    by (rule sum_list_map_remove1 [OF m])
  from weight_run_callback [of "snd t" "b\<lparr>clock := fst t, timers := remove1 t (timers b)\<rparr>"]
  show ?case by (simp add: s)
qed

definition advance :: "int \<Rightarrow> browser \<Rightarrow> browser" where
  "advance dt b = run_due (clock b + dt) b"

text \<open>
  The timers of a page are well formed when each closes an element that exists, as every
  timer the scripts set does.
\<close>

fun target_of :: "callback \<Rightarrow> nat" where
  "target_of (CloseAlert n) = n"
| "target_of (DestroyElement n) = n"

definition timers_wf :: "browser \<Rightarrow> bool" where
  "timers_wf b = list_all (\<lambda>t. target_of (snd t) < length (doc b)) (timers b)"

text \<open>
  When a pending timer ends in the removal of its element: a \<open>CloseAlert\<close> on a fading
  element when the transition has run, any other timer when it is due. An element is
  \<open>doomed\<close> by a time when it is removed already or a timer for it ends in its removal
  by then.
\<close>

definition removal_at :: "bool \<Rightarrow> nat \<Rightarrow> int \<times> callback \<Rightarrow> int" where
  "removal_at fade tr t =
     (case snd t of
        CloseAlert m \<Rightarrow> if fade then fst t + int tr else fst t
      | DestroyElement m \<Rightarrow> fst t)"

definition doomed :: "int \<Rightarrow> nat \<Rightarrow> browser \<Rightarrow> bool" where
  "doomed now n b =
     (detached (doc b ! n) \<or>
      list_ex (\<lambda>t. target_of (snd t) = n \<and>
         removal_at (classList_contains ''fade'' (doc b ! n)) (fadeTransition b) t \<le> now) (timers b))"

section \<open>The main script: the layout controller\<close>

text \<open>
  \<^verbatim>\<open>
  navLinks.forEach(link => {
      const href = link.getAttribute('href');
      if (href && currentPath.includes(href.replace('/', '')) && href !== '#') {
          link.classList.add('active');
      } else {
          link.classList.remove('active');
      }
  });\<close>
  A missing attribute and the empty text are both falsy.
\<close>

definition mark_link :: "string \<Rightarrow> element \<Rightarrow> element" where
  "mark_link currentPath link =
     (case getAttribute link ''href'' of
        None \<Rightarrow> classList_remove ''active'' link
      | Some href \<Rightarrow>
          if href \<noteq> [] \<and> str_includes currentPath (str_replace href ''/'' []) \<and> href \<noteq> ''#''
          then classList_add ''active'' link
          else classList_remove ''active'' link)"

text \<open>
  The handler of \<open>DOMContentLoaded\<close>. The toggle's listener is registered only when both
  elements were found; the document's click listener, the tooltips, the timers of the
  alerts and the marking of the links follow in the order of the source. The UI library
  is taken as loaded: its constructors do not fail.
\<close>

definition DOMContentLoaded :: "browser \<Rightarrow> browser" where
  "DOMContentLoaded b =
     (let sidebarToggle = getElementById (doc b) ''sidebarToggle'';
          sidebar = getElementById (doc b) ''sidebar'';
          b1 = (case sidebarToggle of
                  None \<Rightarrow> b
                | Some t \<Rightarrow> (case sidebar of None \<Rightarrow> b | Some s \<Rightarrow> addEventListener (ToggleSidebar t s) b));
          b2 = addEventListener (AutoHideSidebar sidebarToggle sidebar) b1;
          tooltipTriggerList = tooltip_triggers (doc b2);
          b3 = b2\<lparr>tooltips := tooltips b2 @ tooltipTriggerList\<rparr>;
          alerts = transient_alerts (doc b3);
          b4 = fold (\<lambda>alert. setTimeout (CloseAlert alert) 5000) alerts b3;
          currentPath = pathname b4;
          navLinks = sidebar_nav_links (doc b4)
      in fold (\<lambda>link. update_element link (mark_link currentPath)) navLinks b4)"

text \<open>
  The toggle's listener: \<^verbatim>\<open>sidebar.classList.toggle('active')\<close>. It runs for a click
  on the toggle or inside it.
\<close>

definition toggle_sidebar :: "nat \<Rightarrow> browser \<Rightarrow> browser" where
  "toggle_sidebar sidebar b = update_element sidebar (classList_toggle ''active'') b"

text \<open>
  The document's click listener, with the \<open>sidebarToggle\<close> and \<open>sidebar\<close> its closure
  holds (\<open>None\<close> is \<open>null\<close>):
  \<^verbatim>\<open>
  if (window.innerWidth <= 768 &&
      sidebar.classList.contains('active') &&
      !sidebar.contains(event.target) &&
      event.target !== sidebarToggle) {
      sidebar.classList.remove('active');
  }\<close>
  The conjunction is read left to right: \<open>sidebar\<close> is dereferenced only when the width
  test passed, and reading a property of \<open>null\<close> throws a TypeError.
\<close>

definition auto_hide_sidebar ::
  "nat option \<Rightarrow> nat option \<Rightarrow> event_target \<Rightarrow> browser \<Rightarrow> js_error + browser" where
  "auto_hide_sidebar sidebarToggle sidebar target b =
     (if innerWidth b \<le> 768 then
        (case sidebar of
           None \<Rightarrow> Inl TypeError
         | Some s \<Rightarrow>
             if classList_contains ''active'' (doc b ! s) \<and>
                \<not> node_contains (doc b) s target \<and>
                (case target of BodyTarget \<Rightarrow> True | ElementTarget m \<Rightarrow> Some m \<noteq> sidebarToggle)
             then Inr (update_element s (classList_remove ''active'') b)
             else Inr b)
      else Inr b)"

fun handle_click :: "event_target \<Rightarrow> listener \<Rightarrow> browser \<Rightarrow> js_error + browser" where
  "handle_click target (ToggleSidebar t s) b =
     Inr (if node_contains (doc b) t target then toggle_sidebar s b else b)"
| "handle_click target (AutoHideSidebar t s) b = auto_hide_sidebar t s target b"

text \<open>
  A click: the listeners run in turn (the toggle's before the document's, as the event
  bubbles); an exception a listener throws is reported and the next listener runs.
  The result is the reported errors and the page after the click.
\<close>

fun dispatch_click :: "event_target \<Rightarrow> listener list \<Rightarrow> browser \<Rightarrow> js_error list \<times> browser" where
  "dispatch_click target [] b = ([], b)"
| "dispatch_click target (l # ls) b =
     (case handle_click target l b of
        Inl e \<Rightarrow> (case dispatch_click target ls b of (es, b') \<Rightarrow> (e # es, b'))
      | Inr b1 \<Rightarrow> dispatch_click target ls b1)"

definition click :: "event_target \<Rightarrow> browser \<Rightarrow> js_error list \<times> browser" where
  "click target b = dispatch_click target (listeners b) b"

section \<open>The main script: form validation and the unload guard\<close>

text \<open>
  \<open>checkValidity\<close> is a method of forms and of the listed form elements only; calling it
  on another element calls \<open>undefined\<close>, a TypeError. The class was added by then, so the
  page is returned with the result.
  \<^verbatim>\<open>
  function validateForm(formId) {
      const form = document.getElementById(formId);
      if (!form) return true;
      form.classList.add('was-validated');
      return form.checkValidity();
  }\<close>
\<close>

definition has_checkValidity :: "element \<Rightarrow> bool" where
  "has_checkValidity e =
     (localName e \<in> set [''form'', ''input'', ''select'', ''textarea'', ''button'',
        ''fieldset'', ''output'', ''object''])"

definition validateForm :: "string \<Rightarrow> browser \<Rightarrow> (js_error + bool) \<times> browser" where
  "validateForm formId b =
     (case getElementById (doc b) formId of
        None \<Rightarrow> (Inr True, b)
      | Some form \<Rightarrow>
          (let b1 = update_element form (classList_add ''was-validated'') b
           in if has_checkValidity (doc b1 ! form) then (Inr (validity (doc b1 ! form)), b1)
              else (Inl TypeError, b1)))"

text \<open>
  The \<open>beforeunload\<close> listener: the flag it computes, which decides whether leaving the
  page is interrupted.
  \<^verbatim>\<open>
  forms.forEach(form => {
      if (form.classList.contains('was-validated')) {
          const inputs = form.querySelectorAll('input, select, textarea');
          inputs.forEach(input => {
              if (input.value && !input.hasAttribute('data-initial')) {
                  hasUnsavedChanges = true;
              }
          });
      }
  });\<close>
\<close>

definition hasUnsavedChanges :: "element list \<Rightarrow> bool" where
  "hasUnsavedChanges d =
     fold (\<lambda>form flag.
        if classList_contains ''was-validated'' (d ! form)
        then fold (\<lambda>input flag'.
               if el_value (d ! input) \<noteq> [] \<and> \<not> hasAttribute (d ! input) ''data-initial''
               then True else flag') (form_controls d form) flag
        else flag) (all_forms d) False"

section \<open>The main script: notifications\<close>

definition quot :: string where
  "quot = [CHR 0x22]"

definition alert_cssText :: string where
  "alert_cssText =
     ''top: 20px; right: 20px; z-index: 9999; min-width: 300px; box-shadow: 0 4px 12px rgba(0,0,0,0.15);''"

definition btn_close :: string where
  "btn_close = ''<button type='' @ quot @ ''button'' @ quot @ '' class='' @ quot @ ''btn-close'' @ quot @
     '' data-bs-dismiss='' @ quot @ ''alert'' @ quot @ ''></button>''"

text \<open>
  \<open>Notification.show(message, type = 'info', duration = 5000)\<close>: \<open>None\<close> is an omitted
  argument. The created element is appended to the body, so it is the last node of the
  document; the result is that node and the page.
  \<^verbatim>\<open>
  document.body.appendChild(alertDiv);
  if (duration > 0) {
      setTimeout(() => {
          const bsAlert = new bootstrap.Alert(alertDiv);
          bsAlert.close();
      }, duration);
  }
  return alertDiv;\<close>
\<close>

definition Notification_show ::
  "string \<Rightarrow> string option \<Rightarrow> int option \<Rightarrow> browser \<Rightarrow> nat \<times> browser" where
  "Notification_show message type_arg duration_arg b =
     (let type = (case type_arg of None \<Rightarrow> ''info'' | Some t \<Rightarrow> t);
          duration = (case duration_arg of None \<Rightarrow> 5000 | Some d \<Rightarrow> d);
          alertDiv = length (doc b);
          created = \<lparr>localName = ''div'',
             attributes = [(''style'', alert_cssText)],
             classList = class_tokens (''alert alert-'' @ type @ '' alert-dismissible fade show position-fixed''),
             parentNode = None, detached = False,
             innerHTML = message @ btn_close,
             el_value = [], validity = True\<rparr>;
          b1 = b\<lparr>doc := doc b @ [created]\<rparr>;
          b2 = (if duration > 0 then setTimeout (CloseAlert alertDiv) duration b1 else b1)
      in (alertDiv, b2))"

definition Notification_success :: "string \<Rightarrow> browser \<Rightarrow> nat \<times> browser" where
  "Notification_success message b = Notification_show message (Some ''success'') None b"

definition Notification_error :: "string \<Rightarrow> browser \<Rightarrow> nat \<times> browser" where
  "Notification_error message b = Notification_show message (Some ''danger'') None b"

definition Notification_info :: "string \<Rightarrow> browser \<Rightarrow> nat \<times> browser" where
  "Notification_info message b = Notification_show message (Some ''info'') None b"

definition Notification_warning :: "string \<Rightarrow> browser \<Rightarrow> nat \<times> browser" where
  "Notification_warning message b = Notification_show message (Some ''warning'') None b"

section \<open>charts.js: the bar chart\<close>

text \<open>
  A value of the page's data, and an object as the list of its own properties in the
  order \<open>Object.keys\<close> gives them; the keys of an object are distinct.
\<close>

datatype jsval = JUndefined | JNum real | JStr string | JArr "jsval list"

type_synonym js_object = "(string \<times> jsval) list"

definition Object_keys :: "js_object \<Rightarrow> string list" where
  "Object_keys obj = map fst obj"

text \<open>\<open>keys[i]\<close>: \<open>None\<close> is \<open>undefined\<close>, the read past the end of the array.\<close>

definition key_at :: "string list \<Rightarrow> nat \<Rightarrow> string option" where
  "key_at keys i = (if i < length keys then Some (keys ! i) else None)"

text \<open>\<open>obj[k]\<close>: the key \<open>undefined\<close> is the property named \<open>undefined\<close>; a missing property reads \<open>undefined\<close>.\<close>

definition get_property :: "js_object \<Rightarrow> string option \<Rightarrow> jsval" where
  "get_property obj k =
     (case map_of obj (case k of None \<Rightarrow> ''undefined'' | Some name \<Rightarrow> name) of
        None \<Rightarrow> JUndefined
      | Some v \<Rightarrow> v)"

record dataset =
  label :: string
  ds_data :: jsval
  backgroundColor :: string
  borderColor :: string
  borderWidth :: int
  borderRadius :: int

record chart_options =
  responsive :: bool
  maintainAspectRatio :: bool
  legend_display :: bool
  x_grid_display :: bool
  y_beginAtZero :: bool
  y_grid_borderDash :: "int list"

record chart =
  chart_type :: string
  chart_labels :: jsval
  datasets :: "dataset list"
  options :: chart_options

definition barChart :: chart_options where
  "barChart = \<lparr>responsive = True, maintainAspectRatio = False, legend_display = False,
     x_grid_display = False, y_beginAtZero = True, y_grid_borderDash = [3, 3]\<rparr>"

definition MedicalColors_primary :: string where
  "MedicalColors_primary = ''rgba(0, 255, 204, 0.8)''"

text \<open>
  \<open>createBarChart(canvasId, data, label, color = MedicalColors.primary)\<close>. The drawing
  surface is \<^verbatim>\<open>document.getElementById(canvasId).getContext('2d')\<close>: a TypeError when no
  element has the id, or when the element is no canvas. The result is the configuration
  the chart is made from.
  \<^verbatim>\<open>
  labels: data.labels,
  datasets: [{
      label: label,
      data: data[Object.keys(data)[1]], // Get first data array
      backgroundColor: color,
      borderColor: color.replace('0.8', '1'),
      borderWidth: 1,
      borderRadius: 5
  }]\<close>
\<close>

definition createBarChart ::
  "element list \<Rightarrow> string \<Rightarrow> js_object \<Rightarrow> string \<Rightarrow> string option \<Rightarrow> js_error + chart" where
  "createBarChart d canvasId data label_arg color_arg =
     (let color = (case color_arg of None \<Rightarrow> MedicalColors_primary | Some c \<Rightarrow> c)
      in case getElementById d canvasId of
           None \<Rightarrow> Inl TypeError
         | Some canvas \<Rightarrow>
             if localName (d ! canvas) \<noteq> ''canvas'' then Inl TypeError
             else Inr \<lparr>chart_type = ''bar'',
                    chart_labels = get_property data (Some ''labels''),
                    datasets = [\<lparr>label = label_arg,
                       ds_data = get_property data (key_at (Object_keys data) 1),
                       backgroundColor = color,
                       borderColor = str_replace color ''0.8'' ''1'',
                       borderWidth = 1,
                       borderRadius = 5\<rparr>],
                    options = barChart\<rparr>)"

section \<open>Example pages and data\<close>

text \<open>A page whose one element is a canvas, and the object \<open>{labels: [...], foo: [1, 2, 3]}\<close>.\<close>

definition chart_page :: "element list" where
  "chart_page = [\<lparr>localName = ''canvas'', attributes = [(''id'', ''visits'')], classList = [],
     parentNode = None, detached = False, innerHTML = [], el_value = [], validity = True\<rparr>]"

definition demo_object :: js_object where
  "demo_object =
     [(''labels'', JArr [JStr ''a'', JStr ''b'', JStr ''c'']), (''foo'', JArr [JNum 1, JNum 2, JNum 3])]"

text \<open>The empty page, at time 0, 1024 wide; a fade takes 150 units.\<close>

definition blank_page :: browser where
  "blank_page = \<lparr>doc = [], innerWidth = 1024, pathname = ''/'', clock = 0, timers = [],
     listeners = [], tooltips = [], fadeTransition = 150\<rparr>"

text \<open>
  A dashboard page: the sidebar (open) with two links, the toggle, and a form that fails
  validation and holds a typed name. The viewport is 768 wide, the path \<open>/outpatients\<close>.
\<close>

definition el :: "string \<Rightarrow> (string \<times> string) list \<Rightarrow> string list \<Rightarrow> nat option \<Rightarrow> element" where
  "el name attrs classes parent = \<lparr>localName = name, attributes = attrs, classList = classes,
     parentNode = parent, detached = False, innerHTML = [], el_value = [], validity = True\<rparr>"

definition dashboard_doc :: "element list" where
  "dashboard_doc =
     [el ''nav'' [(''id'', ''sidebar'')] [''sidebar'', ''active''] None,
      el ''a'' [(''href'', ''/patients'')] [''nav-link''] (Some 0),
      el ''a'' [(''href'', ''#'')] [''nav-link'', ''active''] (Some 0),
      el ''button'' [(''id'', ''sidebarToggle'')] [] None,
      (el ''form'' [(''id'', ''intake'')] [] None)\<lparr>validity := False\<rparr>,
      (el ''input'' [(''name'', ''fullname'')] [] (Some 4))\<lparr>el_value := ''Ada''\<rparr>]"

definition dashboard :: browser where
  "dashboard = \<lparr>doc = dashboard_doc, innerWidth = 768, pathname = ''/outpatients'', clock = 0,
     timers = [], listeners = [], tooltips = [], fadeTransition = 150\<rparr>"

section \<open>Properties of the demo data\<close>

declare labels_loop.simps [simp del] trend_loop.simps [simp del] nat_digits.simps [simp del]

lemma labels_loop_eq:
  "labels_loop weeks i acc = acc @ map (\<lambda>k. ''Week '' @ Number_toString (k * 4)) [i..weeks]"
proof (induction weeks i acc rule: labels_loop.induct)
  case (1 weeks i labels)
  show ?case
  proof (cases "i \<le> weeks")
    case True
    then show ?thesis
      using "1.IH" by (subst labels_loop.simps) (simp add: upto_rec1 [of i weeks])
  next
    case False
    then show ?thesis by (subst labels_loop.simps) simp
  qed
qed

lemma labels_generateDemoData:
  "labels (generateDemoData (Some weeks) rnd) = labels_loop weeks 1 []"
  by (simp add: generateDemoData_def Let_def split: prod.splits)

text \<open>
  C4. For every integer \<open>weeks \<ge> 1\<close> and every run of the random source, the labels of
  \<open>generateDemoData(weeks)\<close> are \<open>weeks\<close> many, and the \<open>i\<close>-th (from 0) is the text
  \<open>Week\<close>, a blank and the decimal numeral of \<open>4 * (i + 1)\<close>.
\<close>

theorem generateDemoData_labels:
  assumes "1 \<le> weeks"
  shows "length (labels (generateDemoData (Some weeks) rnd)) = nat weeks \<and>
    (\<forall>i < nat weeks. labels (generateDemoData (Some weeks) rnd) ! i =
        ''Week '' @ Number_toString (4 * (int i + 1)))"
proof -
  have "labels (generateDemoData (Some weeks) rnd) =
      map (\<lambda>k. ''Week '' @ Number_toString (k * 4)) [1..weeks]"
    by (simp add: labels_generateDemoData labels_loop_eq)
  then show ?thesis
    using assms by (simp add: mult.commute add.commute)
qed

theorem generateDemoData_labels_witness:
  "(1::int) \<le> 3 \<and> length (labels (generateDemoData (Some 3) (\<lambda>k. 0))) = 3 \<and>
   labels (generateDemoData (Some 3) (\<lambda>k. 0)) ! 0 = ''Week 4'' \<and>
   labels (generateDemoData (Some 3) (\<lambda>k. 0)) ! 1 = ''Week 8'' \<and>
   labels (generateDemoData (Some 3) (\<lambda>k. 0)) ! 2 = ''Week 12''"
proof -
  have h: "(1::int) \<le> 3" by simp
  have four: "Number_toString 4 = ''4''" and eight: "Number_toString 8 = ''8''"
    and twelve: "Number_toString 12 = ''12''"
    by (simp_all add: Number_toString_def nat_digits.simps digit_char_def)
  from generateDemoData_labels [OF h, of "\<lambda>k. 0"]
  have len: "length (labels (generateDemoData (Some 3) (\<lambda>k. 0))) = 3"
    and nth: "\<And>i. i < 3 \<Longrightarrow> labels (generateDemoData (Some 3) (\<lambda>k. 0)) ! i =
        ''Week '' @ Number_toString (4 * (int i + 1))"
    by simp_all
  from nth [of 0] nth [of 1] nth [of 2] len show ?thesis
    by (simp add: four eight twelve)
qed

text \<open>With the argument left out the data covers seven periods.\<close>

lemma generateDemoData_default: "generateDemoData None rnd = generateDemoData (Some 7) rnd"
  by (simp add: generateDemoData_def)

subsection \<open>Rounding to a double is monotone\<close>

declare exp_up.simps [simp del] exp_down.simps [simp del]












text \<open>
  The arithmetic gives the results JavaScript is known for: \<open>0.1 + 0.2\<close> is
  \<open>0.30000000000000004\<close>, \<open>0.3 - 0.1\<close> is \<open>0.19999999999999998\<close>, \<open>2^53 + 1\<close> is \<open>2^53\<close>.
\<close>

lemma binary64_examples:
  "fl_add (binary64 (1 / 10)) (binary64 (2 / 10)) = 5404319552844596 / 2 ^ 54"
  "binary64 (3 / 10) = 5404319552844595 / 2 ^ 54"
  "fl_sub (binary64 (3 / 10)) (binary64 (1 / 10)) = 7205759403792793 / 2 ^ 55"
  "binary64 (2 / 10) = 7205759403792794 / 2 ^ 55"
  "binary64 (2 ^ 53 + 1) = 2 ^ 53"
  by code_simp+

subsection \<open>The series\<close>












section \<open>Properties of strings\<close>

declare ancestors.simps [simp del]

lemma str_includes_sublist: "str_includes s sub \<longleftrightarrow> sublist sub s"
  by (induction s) (simp_all add: sublist_Cons_right)

lemma str_replace_absent: "\<not> sublist pat s \<Longrightarrow> str_replace s pat rep = s"
proof (induction s)
  case Nil
  then show ?case by auto
next
  case (Cons c cs)
  then have "\<not> prefix pat (c # cs)" and "\<not> sublist pat cs"
    by (simp_all add: sublist_Cons_right)
  with Cons.IH show ?case by simp
qed

lemma str_replace_first:
  assumes "pat \<noteq> []" and "\<not> sublist pat (pre @ butlast pat)"
  shows "str_replace (pre @ pat @ post) pat rep = pre @ rep @ post"
  using assms(2)
proof (induction pre)
  case Nil
  from assms(1) obtain a as where pat: "pat = a # as" by (cases pat) auto
  show ?case by (simp add: pat)
next
  case (Cons a pre)
  from Cons.prems have np: "\<not> prefix pat (a # pre @ butlast pat)"
    and ns: "\<not> sublist pat (pre @ butlast pat)"
    by (simp_all add: sublist_Cons_right)
  have "\<not> prefix pat (a # pre @ pat @ post)"
  proof
    assume p: "prefix pat (a # pre @ pat @ post)"
    have "a # pre @ pat @ post = (a # pre @ butlast pat) @ (last pat # post)"
      using assms(1) by simp
    with p have "prefix pat ((a # pre @ butlast pat) @ (last pat # post))" by simp
    moreover have "length pat \<le> length (a # pre @ butlast pat)" by simp
    ultimately have "prefix pat (a # pre @ butlast pat)"
      by (metis prefix_length_prefix prefixI)
    with np show False ..
  qed
  with Cons.IH [OF ns] show ?case by simp
qed

section \<open>Properties of the bar chart\<close>

text \<open>
  C6. When the canvas resolves and \<open>data\<close> has a second key, \<open>createBarChart\<close> makes a chart
  of one dataset whose series is the value stored under the second key of
  \<open>Object.keys(data)\<close>, whatever the key is called, and whose category labels are
  \<open>data.labels\<close>.
\<close>

theorem createBarChart_series:
  assumes "getElementById d canvasId = Some canvas" and "localName (d ! canvas) = ''canvas''"
    and "distinct (Object_keys data)" and "1 < length (Object_keys data)"
  shows "\<exists>c. createBarChart d canvasId data label_arg color_arg = Inr c \<and>
    length (datasets c) = 1 \<and>
    ds_data (hd (datasets c)) = snd (data ! 1) \<and>
    map_of data (Object_keys data ! 1) = Some (ds_data (hd (datasets c))) \<and>
    chart_labels c = get_property data (Some ''labels'')"
proof -
  from assms(4) have "data ! Suc 0 \<in> set data" by (simp add: Object_keys_def)
  with assms(3) have m: "map_of data (fst (data ! Suc 0)) = Some (snd (data ! Suc 0))"
    by (simp add: Object_keys_def)
  have s: "get_property data (key_at (Object_keys data) 1) = snd (data ! 1)"
    using assms(4) by (simp add: get_property_def key_at_def Object_keys_def m)
  have m': "map_of data (Object_keys data ! 1) = Some (snd (data ! 1))"
    using assms(4) m by (simp add: Object_keys_def)
  show ?thesis
    unfolding createBarChart_def Let_def assms(1) s
    using assms(2) m' by simp
qed

lemma chart_page_canvas: "getElementById chart_page ''visits'' = Some 0"
  by (simp add: getElementById_def chart_page_def isConnected_def getAttribute_def ancestors.simps parentOf_def)

theorem createBarChart_series_witness:
  "getElementById chart_page ''visits'' = Some 0 \<and> localName (chart_page ! 0) = ''canvas'' \<and>
   distinct (Object_keys demo_object) \<and> 1 < length (Object_keys demo_object) \<and>
   (\<exists>c. createBarChart chart_page ''visits'' demo_object ''Visits'' None = Inr c \<and>
      ds_data (hd (datasets c)) = JArr [JNum 1, JNum 2, JNum 3] \<and>
      chart_labels c = JArr [JStr ''a'', JStr ''b'', JStr ''c''])"
proof -
  have h3: "distinct (Object_keys demo_object)" and h4: "1 < length (Object_keys demo_object)"
    by (simp_all add: Object_keys_def demo_object_def)
  have h2: "localName (chart_page ! 0) = ''canvas''" by (simp add: chart_page_def)
  have v: "snd (demo_object ! 1) = JArr [JNum 1, JNum 2, JNum 3]"
    and l: "get_property demo_object (Some ''labels'') = JArr [JStr ''a'', JStr ''b'', JStr ''c'']"
    by (simp_all add: demo_object_def get_property_def)
  from createBarChart_series [OF chart_page_canvas h2 h3 h4, of "''Visits''" None]
  show ?thesis
    unfolding v l using chart_page_canvas h2 h3 h4 by blast
qed


text \<open>
  C7. The border colour of the dataset is the fill colour with the first occurrence of
  \<open>0.8\<close> replaced by \<open>1\<close>: for a fill colour \<open>pre @ 0.8 @ post\<close> in which no occurrence
  of \<open>0.8\<close> starts earlier it is \<open>pre @ 1 @ post\<close>, and for a fill colour in which \<open>0.8\<close>
  does not occur it is the fill colour itself.
\<close>

theorem createBarChart_borderColor:
  assumes "getElementById d canvasId = Some canvas" and "localName (d ! canvas) = ''canvas''"
  shows "\<exists>c ds. createBarChart d canvasId data label_arg color_arg = Inr c \<and> datasets c = [ds] \<and>
    (let fill = (case color_arg of None \<Rightarrow> MedicalColors_primary | Some x \<Rightarrow> x) in
       backgroundColor ds = fill \<and>
       borderColor ds = str_replace fill ''0.8'' ''1'' \<and>
       (\<forall>pre post. fill = pre @ ''0.8'' @ post \<and> \<not> sublist ''0.8'' (pre @ ''0.'') \<longrightarrow>
          borderColor ds = pre @ ''1'' @ post) \<and>
       (\<not> sublist ''0.8'' fill \<longrightarrow> borderColor ds = fill))"
proof -
  define fill where "fill = (case color_arg of None \<Rightarrow> MedicalColors_primary | Some x \<Rightarrow> x)"
  have first: "str_replace fill ''0.8'' ''1'' = pre @ ''1'' @ post"
    if "fill = pre @ ''0.8'' @ post" and "\<not> sublist ''0.8'' (pre @ ''0.'')" for pre post
    using str_replace_first [of "''0.8''" pre post "''1''"] that by simp
  have absent: "str_replace fill ''0.8'' ''1'' = fill" if "\<not> sublist ''0.8'' fill"
    using that by (rule str_replace_absent)
  show ?thesis
    unfolding createBarChart_def Let_def assms(1) fill_def [symmetric]
    using assms(2) first absent by auto
qed

theorem createBarChart_borderColor_witness:
  "getElementById chart_page ''visits'' = Some 0 \<and> localName (chart_page ! 0) = ''canvas'' \<and>
   (\<exists>c ds. createBarChart chart_page ''visits'' demo_object ''Visits'' None = Inr c \<and>
      datasets c = [ds] \<and> backgroundColor ds = ''rgba(0, 255, 204, 0.8)'' \<and>
      borderColor ds = ''rgba(0, 255, 204, 1)'') \<and>
   (\<exists>c ds. createBarChart chart_page ''visits'' demo_object ''Visits'' (Some ''#00ffcc'') = Inr c \<and>
      datasets c = [ds] \<and> backgroundColor ds = ''#00ffcc'' \<and> borderColor ds = ''#00ffcc'')"
proof -
  have h2: "localName (chart_page ! 0) = ''canvas''" by (simp add: chart_page_def)
  have r1: "str_replace ''rgba(0, 255, 204, 0.8)'' ''0.8'' ''1'' = ''rgba(0, 255, 204, 1)''"
    and r2: "str_replace ''#00ffcc'' ''0.8'' ''1'' = ''#00ffcc''"
    by simp_all
  from createBarChart_borderColor [OF chart_page_canvas h2, of demo_object "''Visits''" None]
  have a: "\<exists>c ds. createBarChart chart_page ''visits'' demo_object ''Visits'' None = Inr c \<and>
      datasets c = [ds] \<and> backgroundColor ds = ''rgba(0, 255, 204, 0.8)'' \<and>
      borderColor ds = ''rgba(0, 255, 204, 1)''"
    by (simp add: Let_def MedicalColors_primary_def r1) blast
  from createBarChart_borderColor [OF chart_page_canvas h2, of demo_object "''Visits''" "Some ''#00ffcc''"]
  have b: "\<exists>c ds. createBarChart chart_page ''visits'' demo_object ''Visits'' (Some ''#00ffcc'') = Inr c \<and>
      datasets c = [ds] \<and> backgroundColor ds = ''#00ffcc'' \<and> borderColor ds = ''#00ffcc''"
    by (simp add: Let_def r2) blast
  from a b chart_page_canvas h2 show ?thesis by blast
qed

section \<open>Properties of the notifications\<close>

lemma banner_classes:
  "class_tokens (''alert alert-'' @ ''danger'' @ '' alert-dismissible fade show position-fixed'') =
     [''alert'', ''alert-danger'', ''alert-dismissible'', ''fade'', ''show'', ''position-fixed'']"
  by (simp add: class_tokens_def is_ws_def)

text \<open>
  C9. \<open>Notification.error(message)\<close> is \<open>Notification.show(message, 'danger', 5000)\<close>: the
  same banner, the same timer, on every page; and so are \<open>success\<close>, \<open>info\<close> and \<open>warning\<close>
  with their severities. The banner of \<open>error\<close> carries the class \<open>alert-danger\<close>.
\<close>

theorem Notification_conveniences:
  "Notification_error message b = Notification_show message (Some ''danger'') (Some 5000) b \<and>
   Notification_success message b = Notification_show message (Some ''success'') (Some 5000) b \<and>
   Notification_info message b = Notification_show message (Some ''info'') (Some 5000) b \<and>
   Notification_warning message b = Notification_show message (Some ''warning'') (Some 5000) b \<and>
   classList (doc (snd (Notification_error message b)) ! fst (Notification_error message b)) =
     [''alert'', ''alert-danger'', ''alert-dismissible'', ''fade'', ''show'', ''position-fixed'']"
  by (simp add: Notification_error_def Notification_success_def Notification_info_def
      Notification_warning_def Notification_show_def Let_def banner_classes [simplified] setTimeout_def)

subsection \<open>Timers\<close>

declare run_due.simps [simp del]

lemma doc_run_callback:
  "doc (run_callback cb b) =
     (case cb of
        CloseAlert m \<Rightarrow>
          if classList_contains ''fade'' (doc b ! m)
          then (doc b)[m := classList_remove ''show'' (doc b ! m)]
          else (doc b)[m := (classList_remove ''show'' (doc b ! m))\<lparr>detached := True\<rparr>]
      | DestroyElement m \<Rightarrow> (doc b)[m := (doc b ! m)\<lparr>detached := True\<rparr>])"
  by (cases cb; cases "target_of cb < length (doc b)")
    (simp_all add: Let_def update_element_def detach_def list_update_beyond)

lemma timers_run_callback:
  "timers (run_callback cb b) =
     timers b @ (case cb of
        CloseAlert m \<Rightarrow> if classList_contains ''fade'' (doc b ! m)
           then [(clock b + int (fadeTransition b), DestroyElement m)] else []
      | DestroyElement m \<Rightarrow> [])"
  by (cases cb) (simp_all add: Let_def update_element_def detach_def)

lemma fadeTransition_run_callback: "fadeTransition (run_callback cb b) = fadeTransition b"
  by (cases cb) (simp_all add: Let_def update_element_def detach_def)


lemma length_run_callback: "length (doc (run_callback cb b)) = length (doc b)"
  unfolding doc_run_callback by (cases cb) simp_all

lemma detached_run_callback:
  assumes "n < length (doc b)"
  shows "detached (doc (run_callback cb b) ! n) \<longleftrightarrow>
     detached (doc b ! n) \<or>
     (target_of cb = n \<and>
      (case cb of CloseAlert m \<Rightarrow> \<not> classList_contains ''fade'' (doc b ! n) | DestroyElement m \<Rightarrow> True))"
  unfolding doc_run_callback using assms
  by (cases cb; cases "n = target_of cb")
    (simp_all add: classList_remove_def)

lemma fade_run_callback:
  assumes "n < length (doc b)"
  shows "classList_contains ''fade'' (doc (run_callback cb b) ! n) \<longleftrightarrow>
     classList_contains ''fade'' (doc b ! n)"
  unfolding doc_run_callback using assms
  by (cases cb; cases "n = target_of cb")
    (simp_all add: classList_remove_def classList_contains_def)

lemma parentNode_run_callback:
  assumes "n < length (doc b)"
  shows "parentNode (doc (run_callback cb b) ! n) = parentNode (doc b ! n)"
  unfolding doc_run_callback using assms
  by (cases cb; cases "n = target_of cb")
    (simp_all add: classList_remove_def)


declare run_callback.simps [simp del]

lemma removal_at_ge: "fst t \<le> removal_at fade tr t"
  by (cases "snd t") (simp_all add: removal_at_def)

lemma doomed_stop:
  assumes "next_due now (timers b) = None"
  shows "doomed now n b \<longleftrightarrow> detached (doc b ! n)"
proof -
  from assms have "filter (\<lambda>t. fst t \<le> now) (timers b) = []"
    by (simp add: next_due_def split: list.splits)
  then have "\<not> fst t \<le> now" if "t \<in> set (timers b)" for t
    using that by (simp add: filter_empty_conv)
  then have "\<not> removal_at fade tr t \<le> now" if "t \<in> set (timers b)" for t fade tr
    using that removal_at_ge [of t fade tr] by fastforce
  then show ?thesis by (auto simp: doomed_def list_ex_iff)
qed

lemma ex_remove1:
  assumes "t \<in> set ts"
  shows "(\<exists>x \<in> set ts. P x) \<longleftrightarrow> P t \<or> (\<exists>x \<in> set (remove1 t ts). P x)"
  using assms by (metis in_set_remove1 notin_set_remove1)

lemma doomed_step:
  assumes "t \<in> set (timers b)" and "fst t \<le> now" and "n < length (doc b)"
  shows "doomed now n (run_callback (snd t) (b\<lparr>clock := fst t, timers := remove1 t (timers b)\<rparr>)) \<longleftrightarrow>
     doomed now n b"
proof -
  define b0 where "b0 = b\<lparr>clock := fst t, timers := remove1 t (timers b)\<rparr>"
  have n0: "n < length (doc b0)" and d0: "doc b0 = doc b" and c0: "clock b0 = fst t"
    and t0: "timers b0 = remove1 t (timers b)" and f0: "fadeTransition b0 = fadeTransition b"
    using assms(3) by (simp_all add: b0_def)
  define fade where "fade = classList_contains ''fade'' (doc b ! n)"
  define tr where "tr = fadeTransition b"
  define P where "P x \<longleftrightarrow> target_of (snd x) = n \<and> removal_at fade tr x \<le> now" for x
  have before: "doomed now n b \<longleftrightarrow> detached (doc b ! n) \<or> P t \<or> (\<exists>x \<in> set (remove1 t (timers b)). P x)"
    unfolding doomed_def list_ex_iff fade_def [symmetric] tr_def [symmetric] P_def [symmetric]
    using ex_remove1 [OF assms(1), of P] by simp
  have after: "doomed now n (run_callback (snd t) b0) \<longleftrightarrow>
      detached (doc (run_callback (snd t) b0) ! n) \<or>
      (\<exists>x \<in> set (timers (run_callback (snd t) b0)). P x)"
    unfolding doomed_def list_ex_iff P_def fade_def tr_def
    by (simp add: fade_run_callback [OF n0] fadeTransition_run_callback d0 f0)
  show ?thesis
  proof (cases "snd t")
    case (CloseAlert m)
    show ?thesis
      unfolding b0_def [symmetric] before after
      using assms(2) CloseAlert
      by (auto simp: detached_run_callback [OF n0] timers_run_callback d0 c0 t0 f0 P_def
          removal_at_def fade_def tr_def)
  next
    case (DestroyElement m)
    show ?thesis
      unfolding b0_def [symmetric] before after
      using assms(2) DestroyElement
      by (auto simp: detached_run_callback [OF n0] timers_run_callback d0 c0 t0 f0 P_def
          removal_at_def fade_def tr_def)
  qed
qed

lemma length_run_due: "length (doc (run_due now b)) = length (doc b)"
proof (induction now b rule: run_due.induct)
  case (1 now b)
  show ?case
  proof (cases "next_due now (timers b)")
    case None
    then show ?thesis by (subst run_due.simps) simp
  next
    case (Some t)
    with "1.IH" [OF Some] show ?thesis
      by (subst run_due.simps) (simp add: length_run_callback)
  qed
qed

lemma parentNode_run_due:
  "n < length (doc b) \<Longrightarrow> parentNode (doc (run_due now b) ! n) = parentNode (doc b ! n)"
proof (induction now b rule: run_due.induct)
  case (1 now b)
  show ?case
  proof (cases "next_due now (timers b)")
    case None
    then show ?thesis by (subst run_due.simps) simp
  next
    case (Some t)
    have "n < length (doc (run_callback (snd t) (b\<lparr>clock := fst t, timers := remove1 t (timers b)\<rparr>)))"
      using "1.prems" by (simp add: length_run_callback)
    from "1.IH" [OF Some this] "1.prems" Some show ?thesis
      by (subst run_due.simps) (simp add: parentNode_run_callback)
  qed
qed

lemma detached_run_due:
  "n < length (doc b) \<Longrightarrow> detached (doc (run_due now b) ! n) \<longleftrightarrow> doomed now n b"
proof (induction now b rule: run_due.induct)
  case (1 now b)
  show ?case
  proof (cases "next_due now (timers b)")
    case None
    then show ?thesis
      by (subst run_due.simps) (simp add: doomed_stop)
  next
    case (Some t)
    from next_due_Some [OF Some] have t: "t \<in> set (timers b)" "fst t \<le> now" by simp_all
    have "n < length (doc (run_callback (snd t) (b\<lparr>clock := fst t, timers := remove1 t (timers b)\<rparr>)))"
      using "1.prems" by (simp add: length_run_callback)
    from "1.IH" [OF Some this] doomed_step [OF t "1.prems"] Some show ?thesis
      by (subst run_due.simps) simp
  qed
qed


lemma ancestors_root: "parentNode (d ! n) = None \<Longrightarrow> ancestors d n = []"
  by (subst ancestors.simps) (simp add: parentOf_def)

lemma isConnected_root:
  "parentNode (d ! n) = None \<Longrightarrow> isConnected d n \<longleftrightarrow> n < length d \<and> \<not> detached (d ! n)"
  by (simp add: isConnected_def ancestors_root)

lemma ToInt32_id: "- 2147483648 \<le> n \<Longrightarrow> n < 2147483648 \<Longrightarrow> ToInt32 n = n"
  by (simp add: ToInt32_def)

text \<open>The banner carries the class \<open>fade\<close>, whatever the severity is.\<close>

lemma split_ws_token:
  assumes "\<forall>c \<in> set tok. \<not> is_ws c" and "is_ws w"
  shows "split_ws cur (tok @ w # post) =
     (if cur @ tok = [] then split_ws [] post else (cur @ tok) # split_ws [] post)"
  using assms(1) by (induction tok arbitrary: cur) (simp_all add: assms(2))

lemma token_in_split_ws:
  assumes "tok \<noteq> []" and "\<forall>c \<in> set tok. \<not> is_ws c" and "is_ws w" and "is_ws w'"
  shows "tok \<in> set (split_ws cur (pre @ w # tok @ w' # post))"
proof (induction pre arbitrary: cur)
  case Nil
  show ?case
    using assms(1) by (simp add: assms(3) split_ws_token [OF assms(2,4)])
next
  case (Cons c pre)
  show ?case
    using Cons.IH [of "[]"] Cons.IH [of "cur @ [c]"] by simp
qed

lemma fade_in_banner:
  "''fade'' \<in> set (class_tokens (''alert alert-'' @ ty @ '' alert-dismissible fade show position-fixed''))"
proof -
  have s: "''alert alert-'' @ ty @ '' alert-dismissible fade show position-fixed'' =
      (''alert alert-'' @ ty @ '' alert-dismissible'') @ CHR '' '' # ''fade'' @ CHR '' '' # ''show position-fixed''"
    by simp
  have "''fade'' \<in> set (split_ws [] ((''alert alert-'' @ ty @ '' alert-dismissible'') @
      CHR '' '' # ''fade'' @ CHR '' '' # ''show position-fixed''))"
    by (rule token_in_split_ws) (simp_all add: is_ws_def)
  then show ?thesis
    unfolding class_tokens_def s by simp
qed

text \<open>The scripts keep the timers well formed: each is set for an element that exists.\<close>

lemma timers_wf_Notification_show:
  "timers_wf b \<Longrightarrow> timers_wf (snd (Notification_show message type_arg duration_arg b))"
  by (auto simp: timers_wf_def Notification_show_def Let_def setTimeout_def list_all_iff)

text \<open>
  C8, as amended. \<open>Notification.show(message, type, duration)\<close> on a page whose pending
  timers close existing elements: with \<open>duration > 0\<close> exactly one timer is added, closing
  the created banner, due after the delay the platform makes of \<open>duration\<close> (its signed
  32-bit value, at least 0), which below \<open>2^31\<close> is \<open>duration\<close> itself; with
  \<open>duration \<le> 0\<close> no timer is added. The banner is in the document after the call. While
  nothing but time acts on the page afterwards, a banner of \<open>duration \<le> 0\<close> stays in the
  document however long one waits, and a banner of a positive duration below \<open>2^31\<close> is in
  the document exactly until \<open>duration\<close> and the fade transition have passed.
\<close>

theorem Notification_show_dismissal:
  assumes "Notification_show message type_arg duration_arg b = (alertDiv, b')"
    and "timers_wf b"
  shows "let duration = (case duration_arg of None \<Rightarrow> 5000 | Some d \<Rightarrow> d) in
    (0 < duration \<longrightarrow>
       timers b' = timers b @ [(clock b + max 0 (ToInt32 duration), CloseAlert alertDiv)]) \<and>
    (0 < duration \<and> duration < 2147483648 \<longrightarrow>
       timers b' = timers b @ [(clock b + duration, CloseAlert alertDiv)]) \<and>
    (duration \<le> 0 \<longrightarrow> timers b' = timers b) \<and>
    clock b' = clock b \<and>
    isConnected (doc b') alertDiv \<and>
    (duration \<le> 0 \<longrightarrow> isConnected (doc (advance dt b')) alertDiv) \<and>
    (0 < duration \<and> duration < 2147483648 \<longrightarrow>
       (isConnected (doc (advance dt b')) alertDiv \<longleftrightarrow> dt < duration + int (fadeTransition b)))"
proof -
  define duration where "duration = (case duration_arg of None \<Rightarrow> 5000 | Some d \<Rightarrow> d)"
  define D where "D = max 0 (ToInt32 duration)"
  from assms(1) have a: "alertDiv = length (doc b)"
    by (auto simp: Notification_show_def Let_def)
  from assms(1) have d: "length (doc b') = Suc (length (doc b))"
    and p: "parentNode (doc b' ! alertDiv) = None" and nd: "\<not> detached (doc b' ! alertDiv)"
    and c: "clock b' = clock b" and tr: "fadeTransition b' = fadeTransition b"
    and fade: "classList_contains ''fade'' (doc b' ! alertDiv)"
    by (auto simp: Notification_show_def Let_def setTimeout_def classList_contains_def
        fade_in_banner [simplified] split: if_splits)
  from assms(1) have t: "timers b' =
      (if 0 < duration then timers b @ [(clock b + D, CloseAlert alertDiv)] else timers b)"
    by (auto simp: Notification_show_def Let_def setTimeout_def duration_def D_def split: if_splits)
  have Did: "D = duration" if "0 < duration" "duration < 2147483648"
    using that by (simp add: D_def ToInt32_id)
  have old: "target_of (snd x) \<noteq> alertDiv" if "x \<in> set (timers b)" for x
    using assms(2) that by (auto simp: timers_wf_def list_all_iff a)
  have lt: "alertDiv < length (doc b')" by (simp add: a d)
  have conn: "isConnected (doc b') alertDiv"
    using p nd lt by (simp add: isConnected_root)
  have "isConnected (doc (advance dt b')) alertDiv \<longleftrightarrow> \<not> detached (doc (advance dt b') ! alertDiv)"
    using lt p by (simp add: advance_def isConnected_root parentNode_run_due length_run_due)
  also have "\<dots> \<longleftrightarrow> \<not> doomed (clock b + dt) alertDiv b'"
    by (simp add: advance_def detached_run_due [OF lt] c)
  also have "\<dots> \<longleftrightarrow> \<not> (0 < duration \<and> D + int (fadeTransition b) \<le> dt)"
    using old nd fade by (auto simp: doomed_def list_ex_iff t tr removal_at_def)
  finally have after: "isConnected (doc (advance dt b')) alertDiv \<longleftrightarrow>
      \<not> (0 < duration \<and> D + int (fadeTransition b) \<le> dt)" .
  show ?thesis
    unfolding Let_def duration_def [symmetric]
    using t c conn after Did by (auto simp: D_def)
qed

theorem Notification_show_dismissal_witness:
  "timers_wf blank_page \<and> fadeTransition blank_page = 150 \<and>
   isConnected (doc (advance 5149 (snd (Notification_show ''Saved'' None (Some 5000) blank_page))))
     (fst (Notification_show ''Saved'' None (Some 5000) blank_page)) \<and>
   \<not> isConnected (doc (advance 5150 (snd (Notification_show ''Saved'' None (Some 5000) blank_page))))
     (fst (Notification_show ''Saved'' None (Some 5000) blank_page)) \<and>
   isConnected (doc (advance 1000000 (snd (Notification_show ''Saved'' None (Some 0) blank_page))))
     (fst (Notification_show ''Saved'' None (Some 0) blank_page))"
proof -
  have wf: "timers_wf blank_page" and f: "fadeTransition blank_page = 150"
    by (simp_all add: timers_wf_def blank_page_def)
  note th = Notification_show_dismissal [OF surjective_pairing wf]
  from th [where dt = 5149 and message = "''Saved''" and type_arg = None and duration_arg = "Some 5000"]
    th [where dt = 5150 and message = "''Saved''" and type_arg = None and duration_arg = "Some 5000"]
    th [where dt = 1000000 and message = "''Saved''" and type_arg = None and duration_arg = "Some 0"] wf f
  show ?thesis by (simp add: Let_def)
qed

text \<open>
  Stated for every call it fails. A banner of duration 0 shown on the dashboard page
  before the page is initialised gets the timer of 5000 units that the initialisation
  sets for every alert that is not permanent, and is removed when that timer and the
  fade have run. A duration of 3000000000 wraps to a negative delay, so its banner is
  closed at once and removed after the fade.
\<close>

theorem Notification_show_dismissed_by_page:
  "fst (Notification_show ''Saved'' None (Some 0) dashboard) = 6 \<and>
   timers (snd (Notification_show ''Saved'' None (Some 0) dashboard)) = [] \<and>
   timers (DOMContentLoaded (snd (Notification_show ''Saved'' None (Some 0) dashboard))) =
     [(5000, CloseAlert 6)] \<and>
   isConnected (doc (advance 5149
     (DOMContentLoaded (snd (Notification_show ''Saved'' None (Some 0) dashboard))))) 6 \<and>
   \<not> isConnected (doc (advance 5150
     (DOMContentLoaded (snd (Notification_show ''Saved'' None (Some 0) dashboard))))) 6 \<and>
   fst (Notification_show ''Saved'' None (Some 3000000000) blank_page) = 0 \<and>
   timers (snd (Notification_show ''Saved'' None (Some 3000000000) blank_page)) = [(0, CloseAlert 0)] \<and>
   \<not> isConnected (doc (advance 150
     (snd (Notification_show ''Saved'' None (Some 3000000000) blank_page)))) 0"
  by code_simp

section \<open>Properties of the layout controller\<close>

lemma fold_setTimeout:
  "fold (\<lambda>a. setTimeout (CloseAlert a) k) xs b =
     b\<lparr>timers := timers b @ map (\<lambda>a. (clock b + max 0 (ToInt32 k), CloseAlert a)) xs\<rparr>"
  by (induction xs arbitrary: b) (simp_all add: setTimeout_def)

lemma fold_update_element:
  "fold (\<lambda>l. update_element l f) xs b = b\<lparr>doc := fold (\<lambda>l d. d[l := f (d ! l)]) xs (doc b)\<rparr>"
  by (induction xs arbitrary: b) (simp_all add: update_element_def)

lemma length_fold_update: "length (fold (\<lambda>l d. d[l := f (d ! l)]) xs d) = length d"
  by (induction xs arbitrary: d) simp_all

lemma nth_fold_update:
  "distinct xs \<Longrightarrow> n < length d \<Longrightarrow>
   fold (\<lambda>l d. d[l := f (d ! l)]) xs d ! n = (if n \<in> set xs then f (d ! n) else d ! n)"
proof (induction xs arbitrary: d)
  case Nil
  then show ?case by simp
next
  case (Cons x xs)
  from Cons.prems have dx: "distinct xs" and nx: "x \<notin> set xs" by simp_all
  have len: "n < length (d[x := f (d ! x)])" using Cons.prems by simp
  show ?case
  proof (cases "x = n")
    case True
    with Cons.IH [OF dx len] nx Cons.prems(2) show ?thesis by simp
  next
    case False
    with Cons.IH [OF dx len] show ?thesis by simp
  qed
qed

lemma distinct_select_all: "distinct (select_all d P)"
  by (simp add: select_all_def)

lemma select_all_less: "n \<in> set (select_all d P) \<Longrightarrow> n < length d"
  by (simp add: select_all_def)

lemma DOMContentLoaded_eq:
  "DOMContentLoaded b =
     b\<lparr>doc := fold (\<lambda>l d. d[l := mark_link (pathname b) (d ! l)]) (sidebar_nav_links (doc b)) (doc b),
       timers := timers b @ map (\<lambda>a. (clock b + 5000, CloseAlert a)) (transient_alerts (doc b)),
       listeners := listeners b @
         (case getElementById (doc b) ''sidebarToggle'' of
            None \<Rightarrow> []
          | Some t \<Rightarrow> (case getElementById (doc b) ''sidebar'' of None \<Rightarrow> [] | Some s \<Rightarrow> [ToggleSidebar t s])) @
         [AutoHideSidebar (getElementById (doc b) ''sidebarToggle'') (getElementById (doc b) ''sidebar'')],
       tooltips := tooltips b @ tooltip_triggers (doc b)\<rparr>"
  by (simp add: DOMContentLoaded_def Let_def fold_setTimeout fold_update_element addEventListener_def
      ToInt32_def split: option.splits)

lemma timers_wf_DOMContentLoaded: "timers_wf b \<Longrightarrow> timers_wf (DOMContentLoaded b)"
  by (auto simp: timers_wf_def DOMContentLoaded_eq list_all_iff length_fold_update
      transient_alerts_def select_all_def)

lemma getElementById_Some:
  assumes "getElementById d i = Some n"
  shows "n < length d" and "isConnected d n" and "getAttribute (d ! n) ''id'' = Some i"
  using assms by (auto simp: getElementById_def find_Some_iff split: if_splits)

text \<open>
  C1. What the code does on a page without the sidebar element, after the page was
  initialised with no listener of its own: the toggle's listener is not registered, the
  document's click listener is, and every click while the viewport is at most 768 wide
  reports a TypeError (the listener reads \<open>classList\<close> of \<open>null\<close>); wider than that, no
  click reports an error. The specification asks for no error at any width when an
  optional element is absent.
\<close>

theorem click_without_sidebar:
  assumes "getElementById (doc b) ''sidebar'' = None" and "listeners b = []"
  shows "fst (click target (DOMContentLoaded b)) = (if innerWidth b \<le> 768 then [TypeError] else [])"
  using assms
  by (simp add: click_def DOMContentLoaded_eq auto_hide_sidebar_def split: option.splits)

theorem click_without_sidebar_witness:
  "getElementById (doc (blank_page\<lparr>innerWidth := 500\<rparr>)) ''sidebar'' = None \<and>
   listeners (blank_page\<lparr>innerWidth := 500\<rparr>) = [] \<and>
   fst (click BodyTarget (DOMContentLoaded (blank_page\<lparr>innerWidth := 500\<rparr>))) = [TypeError]"
proof -
  have h1: "getElementById (doc (blank_page\<lparr>innerWidth := 500\<rparr>)) ''sidebar'' = None"
    and h2: "listeners (blank_page\<lparr>innerWidth := 500\<rparr>) = []"
    by (simp_all add: blank_page_def getElementById_def)
  from click_without_sidebar [OF h1 h2, of BodyTarget] h1 h2 show ?thesis
    by (simp add: blank_page_def)
qed

lemma classList_contains_remove:
  "classList_contains c (classList_remove c' e) \<longleftrightarrow> classList_contains c e \<and> c \<noteq> c'"
  by (auto simp: classList_contains_def classList_remove_def)

lemma classList_contains_add:
  "classList_contains c (classList_add c' e) \<longleftrightarrow> classList_contains c e \<or> c = c'"
  by (auto simp: classList_contains_def classList_add_def)

text \<open>With the sidebar present and only the toggle missing, no click reports an error.\<close>

lemma click_without_toggle:
  assumes "getElementById (doc b) ''sidebarToggle'' = None"
    and "getElementById (doc b) ''sidebar'' = Some s" and "listeners b = []"
  shows "fst (click target (DOMContentLoaded b)) = []"
  using assms by (simp add: click_def DOMContentLoaded_eq auto_hide_sidebar_def)

text \<open>
  C2, as amended. The document's click listener, holding an existing sidebar element,
  never throws; it removes the sidebar's \<open>active\<close> class if and only if the viewport is at
  most 768 wide (768 included), the sidebar has the class, the target is not inside the
  sidebar and the target is not the toggle. In every other case the page is left as it
  was; in no case is another class of the sidebar or another element changed.
\<close>

theorem auto_hide_sidebar_closes:
  assumes "s < length (doc b)"
  shows "let closes = (innerWidth b \<le> 768 \<and> classList_contains ''active'' (doc b ! s) \<and>
                \<not> node_contains (doc b) s target \<and>
                (\<forall>t. sidebarToggle = Some t \<longrightarrow> target \<noteq> ElementTarget t))
    in \<exists>b'. auto_hide_sidebar sidebarToggle (Some s) target b = Inr b' \<and>
         ((classList_contains ''active'' (doc b ! s) \<and> \<not> classList_contains ''active'' (doc b' ! s))
             \<longleftrightarrow> closes) \<and>
         (\<not> closes \<longrightarrow> b' = b) \<and>
         set (classList (doc b' ! s)) - {''active''} = set (classList (doc b ! s)) - {''active''} \<and>
         (\<forall>n. n \<noteq> s \<longrightarrow> doc b' ! n = doc b ! n)"
proof -
  have t: "(case target of BodyTarget \<Rightarrow> True | ElementTarget m \<Rightarrow> Some m \<noteq> sidebarToggle) \<longleftrightarrow>
      (\<forall>t. sidebarToggle = Some t \<longrightarrow> target \<noteq> ElementTarget t)"
    by (cases target) auto
  show ?thesis
    unfolding Let_def auto_hide_sidebar_def t
    using assms
    by (auto simp: update_element_def classList_contains_def classList_remove_def)
qed

theorem auto_hide_sidebar_closes_witness:
  "0 < length (doc dashboard) \<and>
   (\<exists>b'. auto_hide_sidebar (Some 3) (Some 0) BodyTarget dashboard = Inr b' \<and>
      \<not> classList_contains ''active'' (doc b' ! 0)) \<and>
   (\<exists>b'. auto_hide_sidebar (Some 3) (Some 0) (ElementTarget 3) dashboard = Inr b' \<and> b' = dashboard)"
proof -
  have len: "0 < length (doc dashboard)"
    by (simp add: dashboard_def dashboard_doc_def)
  have w: "innerWidth dashboard \<le> 768" by (simp add: dashboard_def)
  have a: "classList_contains ''active'' (doc dashboard ! 0)"
    by (simp add: dashboard_def dashboard_doc_def el_def classList_contains_def)
  have c: "\<not> node_contains (doc dashboard) 0 BodyTarget"
    by (simp add: node_contains_def)
  from auto_hide_sidebar_closes [OF len, where sidebarToggle = "Some 3" and target = BodyTarget] w a c
  have 1: "\<exists>b'. auto_hide_sidebar (Some 3) (Some 0) BodyTarget dashboard = Inr b' \<and>
      \<not> classList_contains ''active'' (doc b' ! 0)"
    by (simp add: Let_def) blast
  from auto_hide_sidebar_closes [OF len, where sidebarToggle = "Some 3" and target = "ElementTarget 3"]
  have 2: "\<exists>b'. auto_hide_sidebar (Some 3) (Some 0) (ElementTarget 3) dashboard = Inr b' \<and> b' = dashboard"
    by (simp add: Let_def)
  from len 1 2 show ?thesis by blast
qed

text \<open>
  With a strict bound the statement fails: on the dashboard page, 768 wide and so not
  below 768, a click on the body after initialisation closes the open sidebar.
\<close>

theorem auto_hide_sidebar_at_768:
  "innerWidth dashboard = 768 \<and> \<not> innerWidth dashboard < 768 \<and>
   getElementById (doc dashboard) ''sidebar'' = Some 0 \<and>
   getElementById (doc dashboard) ''sidebarToggle'' = Some 3 \<and>
   classList_contains ''active'' (doc (DOMContentLoaded dashboard) ! 0) \<and>
   fst (click BodyTarget (DOMContentLoaded dashboard)) = [] \<and>
   \<not> classList_contains ''active'' (doc (snd (click BodyTarget (DOMContentLoaded dashboard))) ! 0)"
  by code_simp

lemma classList_contains_mark_link:
  "classList_contains ''active'' (mark_link p e) \<longleftrightarrow>
     (\<exists>href. getAttribute e ''href'' = Some href \<and> href \<noteq> [] \<and> href \<noteq> ''#'' \<and>
        sublist (str_replace href ''/'' []) p)"
  by (auto simp: mark_link_def classList_contains_add classList_contains_remove str_includes_sublist
      split: option.splits)

lemma classList_mark_link:
  "set (classList (mark_link p e)) - {''active''} = set (classList e) - {''active''}"
  by (auto simp: mark_link_def classList_add_def classList_remove_def split: option.splits)

lemma nth_doc_DOMContentLoaded:
  assumes "n < length (doc b)"
  shows "doc (DOMContentLoaded b) ! n =
     (if n \<in> set (sidebar_nav_links (doc b)) then mark_link (pathname b) (doc b ! n) else doc b ! n)"
  unfolding DOMContentLoaded_eq sidebar_nav_links_def
  using assms by (simp add: nth_fold_update distinct_select_all)

text \<open>
  C3, as amended. After initialisation a sidebar link carries \<open>active\<close> if and only if it
  has an \<open>href\<close> that is not empty, is not \<open>#\<close>, and whose text with its first \<open>/\<close> removed
  occurs in the current path; a link whose \<open>href\<close> is \<open>#\<close> is never active. The other
  classes of a link are kept, and an element that is no sidebar link is left as it was.
\<close>

theorem DOMContentLoaded_active_links:
  assumes "link \<in> set (sidebar_nav_links (doc b))"
  shows "(classList_contains ''active'' (doc (DOMContentLoaded b) ! link) \<longleftrightarrow>
       (\<exists>href. getAttribute (doc b ! link) ''href'' = Some href \<and> href \<noteq> [] \<and> href \<noteq> ''#'' \<and>
          sublist (str_replace href ''/'' []) (pathname b))) \<and>
     (getAttribute (doc b ! link) ''href'' = Some ''#'' \<longrightarrow>
        \<not> classList_contains ''active'' (doc (DOMContentLoaded b) ! link)) \<and>
     set (classList (doc (DOMContentLoaded b) ! link)) - {''active''} =
       set (classList (doc b ! link)) - {''active''} \<and>
     (\<forall>n < length (doc b). n \<notin> set (sidebar_nav_links (doc b)) \<longrightarrow>
        doc (DOMContentLoaded b) ! n = doc b ! n)"
proof -
  from assms have len: "link < length (doc b)"
    by (simp add: sidebar_nav_links_def select_all_less)
  have m: "doc (DOMContentLoaded b) ! link = mark_link (pathname b) (doc b ! link)"
    using assms by (simp add: nth_doc_DOMContentLoaded [OF len])
  show ?thesis
    unfolding m
    by (auto simp: classList_contains_mark_link classList_mark_link nth_doc_DOMContentLoaded)
qed

theorem DOMContentLoaded_active_links_witness:
  "1 \<in> set (sidebar_nav_links (doc dashboard)) \<and> 2 \<in> set (sidebar_nav_links (doc dashboard)) \<and>
   classList_contains ''active'' (doc (DOMContentLoaded dashboard) ! 1) \<and>
   \<not> classList_contains ''active'' (doc (DOMContentLoaded dashboard) ! 2)"
proof -
  have l: "sidebar_nav_links (doc dashboard) = [1, 2]" by code_simp
  have h1: "1 \<in> set (sidebar_nav_links (doc dashboard))"
    and h2: "2 \<in> set (sidebar_nav_links (doc dashboard))"
    by (simp_all add: l)
  have a1: "getAttribute (doc dashboard ! 1) ''href'' = Some ''/patients''"
    and a2: "getAttribute (doc dashboard ! 2) ''href'' = Some ''#''"
    by (simp_all add: dashboard_def dashboard_doc_def el_def getAttribute_def)
  have p: "sublist (str_replace ''/patients'' ''/'' []) (pathname dashboard)"
    unfolding str_includes_sublist [symmetric] by (simp add: dashboard_def)
  have "\<exists>href. getAttribute (doc dashboard ! 1) ''href'' = Some href \<and> href \<noteq> [] \<and>
      href \<noteq> ''#'' \<and> sublist (str_replace href ''/'' []) (pathname dashboard)"
    using a1 p by (intro exI [of _ "''/patients''"]) simp
  with DOMContentLoaded_active_links [OF h1]
  have c1: "classList_contains ''active'' (doc (DOMContentLoaded dashboard) ! 1)" by blast
  from DOMContentLoaded_active_links [OF h2] a2
  have c2: "\<not> classList_contains ''active'' (doc (DOMContentLoaded dashboard) ! 2)" by blast
  from h1 h2 c1 c2 show ?thesis by blast
qed

text \<open>
  With the \<open>href\<close> itself compared with the path the statement fails: on the dashboard
  page the link to \<open>/patients\<close> is marked active on the path \<open>/outpatients\<close>, in which
  \<open>/patients\<close> does not occur. The code looks for \<open>patients\<close>.
\<close>

theorem DOMContentLoaded_active_not_substring:
  "1 \<in> set (sidebar_nav_links (doc dashboard)) \<and>
   getAttribute (doc dashboard ! 1) ''href'' = Some ''/patients'' \<and>
   pathname dashboard = ''/outpatients'' \<and>
   \<not> sublist ''/patients'' ''/outpatients'' \<and>
   classList_contains ''active'' (doc (DOMContentLoaded dashboard) ! 1)"
  by code_simp

section \<open>Properties of form validation\<close>

lemma fold_flag:
  "fold (\<lambda>x flag. if P x then True else flag) xs flag \<longleftrightarrow> flag \<or> (\<exists>x \<in> set xs. P x)"
  by (induction xs arbitrary: flag) auto

lemma hasUnsavedChanges_iff:
  "hasUnsavedChanges d \<longleftrightarrow>
     (\<exists>form \<in> set (all_forms d). classList_contains ''was-validated'' (d ! form) \<and>
        (\<exists>input \<in> set (form_controls d form).
           el_value (d ! input) \<noteq> [] \<and> \<not> hasAttribute (d ! input) ''data-initial''))"
proof -
  have inner: "(\<lambda>form flag.
        if classList_contains ''was-validated'' (d ! form)
        then fold (\<lambda>input flag'.
               if el_value (d ! input) \<noteq> [] \<and> \<not> hasAttribute (d ! input) ''data-initial''
               then True else flag') (form_controls d form) flag
        else flag) =
     (\<lambda>form flag. if classList_contains ''was-validated'' (d ! form) \<and>
          (\<exists>input \<in> set (form_controls d form).
             el_value (d ! input) \<noteq> [] \<and> \<not> hasAttribute (d ! input) ''data-initial'')
        then True else flag)"
    by (intro ext) (auto simp: fold_flag)
  show ?thesis
    unfolding hasUnsavedChanges_def inner by (simp add: fold_flag)
qed

text \<open>Changing the class list of one element leaves the tree and every other field as they were.\<close>

lemma classList_add_fields:
  "localName (classList_add c e) = localName e"
  "attributes (classList_add c e) = attributes e"
  "parentNode (classList_add c e) = parentNode e"
  "detached (classList_add c e) = detached e"
  "el_value (classList_add c e) = el_value e"
  "validity (classList_add c e) = validity e"
  by (simp_all add: classList_add_def)

lemma parentOf_add: "parentOf (d[n := classList_add c (d ! n)]) m = parentOf d m"
  by (cases "n < length d") (auto simp: parentOf_def classList_add_fields nth_list_update)

lemma ancestors_add: "ancestors (d[n := classList_add c (d ! n)]) m = ancestors d m"
proof (induction m rule: less_induct)
  case (less m)
  show ?case
    by (subst ancestors.simps, subst (2) ancestors.simps)
      (simp add: parentOf_add less.IH split: option.splits)
qed

lemma detached_add: "m < length d \<Longrightarrow> detached (d[n := classList_add c (d ! n)] ! m) = detached (d ! m)"
  by (cases "m = n") (simp_all add: classList_add_fields)

lemma ancestors_less: "a \<in> set (ancestors d m) \<Longrightarrow> a < m"
proof (induction m rule: less_induct)
  case (less m)
  have e: "ancestors d m =
      (case parentOf d m of None \<Rightarrow> [] | Some p \<Rightarrow> if p < m then p # ancestors d p else [])"
    by (rule ancestors.simps)
  show ?case
  proof (cases "parentOf d m")
    case None
    with less.prems e show ?thesis by simp
  next
    case (Some p)
    with less.prems e have p: "p < m" and a: "a = p \<or> a \<in> set (ancestors d p)"
      by (auto split: if_splits)
    from a show ?thesis
    proof
      assume "a = p"
      with p show ?thesis by simp
    next
      assume "a \<in> set (ancestors d p)"
      from less.IH [OF p this] p show ?thesis by simp
    qed
  qed
qed

lemma isConnected_add: "isConnected (d[n := classList_add c (d ! n)]) m = isConnected d m"
proof (cases "m < length d")
  case True
  have "a < length d" if "a \<in> set (ancestors d m)" for a
    using ancestors_less [OF that] True by simp
  then show ?thesis
    using True by (auto simp: isConnected_def ancestors_add detached_add list_all_iff)
next
  case False
  then show ?thesis by (simp add: isConnected_def)
qed


lemma select_all_add:
  assumes "\<And>m. m < length d \<Longrightarrow> P' m = P m"
  shows "select_all (d[n := classList_add c (d ! n)]) P' = select_all d P"
  unfolding select_all_def using assms
  by (auto simp: isConnected_add intro: filter_cong)

lemma nth_add_fields:
  assumes "m < length d"
  shows "localName (d[n := classList_add c (d ! n)] ! m) = localName (d ! m)"
    and "el_value (d[n := classList_add c (d ! n)] ! m) = el_value (d ! m)"
    and "attributes (d[n := classList_add c (d ! n)] ! m) = attributes (d ! m)"
    and "validity (d[n := classList_add c (d ! n)] ! m) = validity (d ! m)"
  using assms by (cases "m = n"; simp add: classList_add_fields)+

lemma all_forms_add: "all_forms (d[n := classList_add c (d ! n)]) = all_forms d"
  unfolding all_forms_def by (rule select_all_add) (simp add: nth_add_fields)

lemma form_controls_add: "form_controls (d[n := classList_add c (d ! n)]) f = form_controls d f"
  unfolding form_controls_def by (rule select_all_add) (simp add: nth_add_fields ancestors_add)

text \<open>
  C10, as amended. \<open>validateForm(formId)\<close> returns \<open>true\<close> and changes nothing when no
  element has the id. When an element has it, the class \<open>was-validated\<close> is added to that
  element whatever the outcome; if the element has \<open>checkValidity\<close> (a form), the result is
  what \<open>checkValidity\<close> answers, and a form that holds a control with a value and no
  \<open>data-initial\<close> attribute then trips the unload guard; if the element has no
  \<open>checkValidity\<close>, the call throws a TypeError after the class was added.
\<close>

theorem validateForm_permissive:
  "(getElementById (doc b) formId = None \<longrightarrow> validateForm formId b = (Inr True, b)) \<and>
   (\<forall>form. getElementById (doc b) formId = Some form \<longrightarrow>
      (let b' = update_element form (classList_add ''was-validated'') b in
       classList_contains ''was-validated'' (doc b' ! form) \<and>
       (has_checkValidity (doc b ! form) \<longrightarrow>
          validateForm formId b = (Inr (validity (doc b ! form)), b')) \<and>
       (\<not> has_checkValidity (doc b ! form) \<longrightarrow> validateForm formId b = (Inl TypeError, b')) \<and>
       (localName (doc b ! form) = ''form'' \<and>
        (\<exists>input \<in> set (form_controls (doc b) form).
            el_value (doc b ! input) \<noteq> [] \<and> \<not> hasAttribute (doc b ! input) ''data-initial'') \<longrightarrow>
          hasUnsavedChanges (doc b'))))"
proof (intro conjI allI impI)
  assume "getElementById (doc b) formId = None"
  then show "validateForm formId b = (Inr True, b)"
    by (simp add: validateForm_def)
next
  fix form assume g: "getElementById (doc b) formId = Some form"
  define b' where "b' = update_element form (classList_add ''was-validated'') b"
  have d': "doc b' = (doc b)[form := classList_add ''was-validated'' (doc b ! form)]"
    by (simp add: b'_def update_element_def)
  from getElementById_Some [OF g] have len: "form < length (doc b)"
    and conn: "isConnected (doc b) form" by simp_all
  have nth: "doc b' ! form = classList_add ''was-validated'' (doc b ! form)"
    using len by (simp add: d')
  have hc: "has_checkValidity (doc b' ! form) = has_checkValidity (doc b ! form)"
    by (simp add: nth has_checkValidity_def classList_add_fields)
  have c: "classList_contains ''was-validated'' (doc b' ! form)"
    by (simp add: nth classList_contains_def classList_add_def)
  have ok: "validateForm formId b = (Inr (validity (doc b ! form)), b')"
    if "has_checkValidity (doc b ! form)"
    using that hc by (simp add: validateForm_def g b'_def [symmetric] Let_def nth classList_add_fields)
  have bad: "validateForm formId b = (Inl TypeError, b')" if "\<not> has_checkValidity (doc b ! form)"
    using that hc by (simp add: validateForm_def g b'_def [symmetric] Let_def)
  have guard: "hasUnsavedChanges (doc b')"
    if "localName (doc b ! form) = ''form'' \<and>
        (\<exists>input \<in> set (form_controls (doc b) form).
            el_value (doc b ! input) \<noteq> [] \<and> \<not> hasAttribute (doc b ! input) ''data-initial'')"
  proof -
    from that obtain input where f: "localName (doc b ! form) = ''form''"
      and i: "input \<in> set (form_controls (doc b) form)"
      and v: "el_value (doc b ! input) \<noteq> []" "\<not> hasAttribute (doc b ! input) ''data-initial''"
      by blast
    from i have il: "input < length (doc b)" by (simp add: form_controls_def select_all_def)
    from f len conn have "form \<in> set (all_forms (doc b'))"
      by (simp add: d' all_forms_add) (simp add: all_forms_def select_all_def)
    moreover from i have "input \<in> set (form_controls (doc b') form)"
      by (simp add: d' form_controls_add)
    moreover from v il have "el_value (doc b' ! input) \<noteq> []"
      and "\<not> hasAttribute (doc b' ! input) ''data-initial''"
      by (simp_all add: d' nth_add_fields hasAttribute_def)
    ultimately show ?thesis
      using c unfolding hasUnsavedChanges_iff by blast
  qed
  show "let b' = update_element form (classList_add ''was-validated'') b in
       classList_contains ''was-validated'' (doc b' ! form) \<and>
       (has_checkValidity (doc b ! form) \<longrightarrow>
          validateForm formId b = (Inr (validity (doc b ! form)), b')) \<and>
       (\<not> has_checkValidity (doc b ! form) \<longrightarrow> validateForm formId b = (Inl TypeError, b')) \<and>
       (localName (doc b ! form) = ''form'' \<and>
        (\<exists>input \<in> set (form_controls (doc b) form).
            el_value (doc b ! input) \<noteq> [] \<and> \<not> hasAttribute (doc b ! input) ''data-initial'') \<longrightarrow>
          hasUnsavedChanges (doc b'))"
    unfolding Let_def b'_def [symmetric] using c ok bad guard by blast
qed

theorem validateForm_permissive_witness:
  "getElementById (doc dashboard) ''missing'' = None \<and>
   validateForm ''missing'' dashboard = (Inr True, dashboard) \<and>
   getElementById (doc dashboard) ''intake'' = Some 4 \<and>
   fst (validateForm ''intake'' dashboard) = Inr False \<and>
   \<not> hasUnsavedChanges (doc dashboard) \<and>
   hasUnsavedChanges (doc (snd (validateForm ''intake'' dashboard)))"
proof -
  have g0: "getElementById (doc dashboard) ''missing'' = None"
    and g4: "getElementById (doc dashboard) ''intake'' = Some 4"
    and before: "\<not> hasUnsavedChanges (doc dashboard)"
    by code_simp+
  have f: "localName (doc dashboard ! 4) = ''form''" and hc: "has_checkValidity (doc dashboard ! 4)"
    and v: "validity (doc dashboard ! 4) = False"
    and i: "5 \<in> set (form_controls (doc dashboard) 4)"
    and iv: "el_value (doc dashboard ! 5) \<noteq> []" "\<not> hasAttribute (doc dashboard ! 5) ''data-initial''"
    by code_simp+
  note th = validateForm_permissive [of dashboard]
  from th [of "''missing''"] g0 have 1: "validateForm ''missing'' dashboard = (Inr True, dashboard)"
    by blast
  from th [of "''intake''"] g4 hc f i iv
  have 2: "validateForm ''intake'' dashboard =
      (Inr (validity (doc dashboard ! 4)), update_element 4 (classList_add ''was-validated'') dashboard)"
    and 3: "hasUnsavedChanges (doc (update_element 4 (classList_add ''was-validated'') dashboard))"
    unfolding Let_def by blast+
  from g0 g4 before 1 2 3 v show ?thesis by simp
qed

text \<open>
  Stated for every id it fails: on the dashboard page the id \<open>sidebar\<close> names the
  navigation element, which has no \<open>checkValidity\<close>, and the call throws after it added
  the class.
\<close>

theorem validateForm_throws_on_non_form:
  "getElementById (doc dashboard) ''sidebar'' = Some 0 \<and>
   fst (validateForm ''sidebar'' dashboard) = Inl TypeError \<and>
   classList_contains ''was-validated'' (doc (snd (validateForm ''sidebar'' dashboard)) ! 0)"
  by code_simp

end
